theory Spec2Isabelle
  imports Complex_Main
begin

section \<open>The game service of the mnemonic trainer\<close>

text \<open>
  A shallow embedding of \<^verbatim>\<open>src/app/services/game.service.ts\<close>. The class
  \<^verbatim>\<open>GameService\<close> becomes a record of its signals and private fields, and every
  method becomes a function from the state before the call to the state after it.

  JavaScript numbers are modelled as \<open>int\<close>: every number the service handles is an
  integer, except the quotient \<^verbatim>\<open>currentGridCapacity / 2\<close>, which is taken in
  \<open>real\<close> (halving an integer is exact in binary floating point).

  \<^verbatim>\<open>Math.random()\<close> is the only effect besides the state. A method that draws random
  numbers takes a source of draws \<open>rnd\<close>: \<open>rnd i\<close> is a natural number standing for
  the \<open>i\<close>-th draw of the call, and \<^verbatim>\<open>Math.floor(Math.random() * n)\<close>, an index
  in \<open>[0, n)\<close>, is \<open>rnd i mod n\<close>. Every index below \<open>n\<close> is the value of some draw.
\<close>

subsection \<open>Data\<close>

record Tile =
  id_tile :: int
  lit :: bool
  selectedByPlayer :: bool
  isCorrectAndClicked :: bool
  isCorrectAndNotClicked :: bool
  isIncorrectAndClicked :: bool

datatype GameState = Idle | Sequence | Input | Checking | Over

record GameService =
  currentLevel :: int
  score :: int
  gameState :: GameState
  gridSize :: int
  tiles :: "Tile list"
  numTilesToLight :: int
  sequence :: "int list"
  playerInput :: "int list"
  isInCombo :: bool

subsection \<open>Grid initialization\<close>

text \<open>The object literal pushed by the loop of \<^verbatim>\<open>initializeGrid\<close>.\<close>

definition newTile :: "int \<Rightarrow> Tile" where
  "newTile i = \<lparr>id_tile = i, lit = False, selectedByPlayer = False,
     isCorrectAndClicked = False, isCorrectAndNotClicked = False,
     isIncorrectAndClicked = False\<rparr>"

text \<open>\<^verbatim>\<open>for (let i = 0; i < size * size; i++) newTiles.push(...)\<close>, from counter \<open>i\<close>.\<close>

function initializeGrid_loop :: "int \<Rightarrow> int \<Rightarrow> Tile list \<Rightarrow> Tile list" where
  "initializeGrid_loop sz i newTiles =
     (if i < sz * sz then initializeGrid_loop sz (i + 1) (newTiles @ [newTile i])
      else newTiles)"
  by pat_completeness auto
termination
  by (relation "measure (\<lambda>(sz, i, newTiles). nat (sz * sz - i))") auto

declare initializeGrid_loop.simps [simp del]

definition initializeGrid :: "GameService \<Rightarrow> GameService" where
  "initializeGrid s =
     (let sz = gridSize s;
          newTiles = initializeGrid_loop sz 0 []
      in s\<lparr>tiles := newTiles, playerInput := []\<rparr>)"

text \<open>
  The field initializers followed by the constructor, which calls
  \<^verbatim>\<open>initializeGrid\<close>.
\<close>

definition constructor :: GameService where
  "constructor =
     initializeGrid \<lparr>currentLevel = 1, score = 0, gameState = Idle, gridSize = 3,
       tiles = [], numTilesToLight = 3, sequence = [], playerInput = [],
       isInCombo = False\<rparr>"

subsection \<open>Starting a round\<close>

text \<open>The function mapped over the tiles by \<^verbatim>\<open>nextRound\<close>.\<close>

definition clearTile :: "Tile \<Rightarrow> Tile" where
  "clearTile t = t\<lparr>lit := False, selectedByPlayer := False, isCorrectAndClicked := False,
     isCorrectAndNotClicked := False, isIncorrectAndClicked := False\<rparr>"

text \<open>
  \<^verbatim>\<open>availableTiles.splice(randomIndex, 1)\<close> for an index inside the array: the
  array without the element at that index. The element itself is read before.
\<close>

definition splice1 :: "nat \<Rightarrow> 'a list \<Rightarrow> 'a list" where
  "splice1 k xs = take k xs @ drop (Suc k) xs"

text \<open>
  The loop of \<^verbatim>\<open>#generateSequence\<close> from counter \<open>i\<close>, with the arrays
  \<^verbatim>\<open>availableTiles\<close> and \<^verbatim>\<open>#sequence\<close> as they are at that iteration.
\<close>

function generateSequence_loop ::
  "(nat \<Rightarrow> nat) \<Rightarrow> int \<Rightarrow> nat \<Rightarrow> int list \<Rightarrow> int list \<Rightarrow> int list" where
  "generateSequence_loop rnd numToLight i availableTiles sq =
     (if int i < numToLight then
        (if length availableTiles = 0 then sq
         else
           (let randomIndex = rnd i mod length availableTiles
            in generateSequence_loop rnd numToLight (i + 1)
                 (splice1 randomIndex availableTiles)
                 (sq @ [availableTiles ! randomIndex])))
      else sq)"
  by pat_completeness auto
termination
  by (relation "measure (\<lambda>(rnd, numToLight, i, availableTiles, sq). nat (numToLight - int i))")
    auto

declare generateSequence_loop.simps [simp del]

definition generateSequence :: "(nat \<Rightarrow> nat) \<Rightarrow> GameService \<Rightarrow> GameService" where
  "generateSequence rnd s =
     (let availableTiles = map id_tile (tiles s);
          numToLight = numTilesToLight s
      in s\<lparr>sequence := generateSequence_loop rnd numToLight 0 availableTiles []\<rparr>)"

definition nextRound :: "(nat \<Rightarrow> nat) \<Rightarrow> GameService \<Rightarrow> GameService" where
  "nextRound rnd s =
     (let s1 = s\<lparr>playerInput := [], isInCombo := True\<rparr>;
          s2 = s1\<lparr>tiles := map clearTile (tiles s1)\<rparr>;
          s3 = generateSequence rnd s2
      in s3\<lparr>gameState := Sequence\<rparr>)"

subsection \<open>Starting and resetting the game\<close>

definition startGame :: "(nat \<Rightarrow> nat) \<Rightarrow> GameService \<Rightarrow> GameService" where
  "startGame rnd s =
     (let s1 = s\<lparr>currentLevel := 1, score := 0, isInCombo := False,
                 numTilesToLight := 3, gridSize := 3\<rparr>;
          s2 = initializeGrid s1;
          s3 = nextRound rnd s2
      in s3\<lparr>gameState := Sequence\<rparr>)"

definition resetGame :: "GameService \<Rightarrow> GameService" where
  "resetGame s =
     s\<lparr>currentLevel := 1, score := 0, isInCombo := False, numTilesToLight := 3,
       gridSize := 3, gameState := Idle\<rparr>"

subsection \<open>Evaluating a round\<close>

text \<open>
  The constant \<^verbatim>\<open>correctSelections\<close> of \<^verbatim>\<open>#checkRound\<close>:
  \<^verbatim>\<open>every\<close> is \<open>list_all\<close> and \<^verbatim>\<open>includes\<close> is membership.
\<close>

definition correctSelections :: "GameService \<Rightarrow> bool" where
  "correctSelections s =
     (list_all (\<lambda>i. i \<in> set (sequence s)) (playerInput s) \<and>
      length (playerInput s) = length (sequence s) \<and>
      list_all (\<lambda>i. i \<in> set (playerInput s)) (sequence s))"

text \<open>The function mapped over the tiles when the round has failed.\<close>

definition markTile :: "int list \<Rightarrow> int list \<Rightarrow> Tile \<Rightarrow> Tile" where
  "markTile sq inp tile =
     (let isInSequence = id_tile tile \<in> set sq;
          isClickedByPlayer = id_tile tile \<in> set inp
      in tile\<lparr>isCorrectAndClicked := isInSequence \<and> isClickedByPlayer,
              isCorrectAndNotClicked := isInSequence \<and> \<not> isClickedByPlayer,
              isIncorrectAndClicked := \<not> isInSequence \<and> isClickedByPlayer\<rparr>)"

definition checkRound :: "(nat \<Rightarrow> nat) \<Rightarrow> GameService \<Rightarrow> GameService" where
  "checkRound rnd s =
     (let s0 = s\<lparr>gameState := Checking\<rparr>
      in if correctSelections s0 then
           (let s1 = s0\<lparr>currentLevel := currentLevel s0 + 1\<rparr>;
                s2 = s1\<lparr>numTilesToLight := numTilesToLight s1 + 1\<rparr>;
                currentGridCapacity = gridSize s2 * gridSize s2;
                s3 = (if real_of_int (numTilesToLight s2) > real_of_int currentGridCapacity / 2
                      then s2\<lparr>gridSize := gridSize s2 + 1\<rparr> else s2)
            in nextRound rnd (initializeGrid s3))
         else
           (let s1 = s0\<lparr>isInCombo := False\<rparr>;
                s2 = s1\<lparr>tiles := map (markTile (sequence s1) (playerInput s1)) (tiles s1)\<rparr>
            in s2\<lparr>gameState := Over\<rparr>))"

subsection \<open>Handling a click\<close>

text \<open>
  \<^verbatim>\<open>Array.prototype.findIndex\<close>: the index of the first element that satisfies the
  predicate, \<open>-1\<close> when there is none.
\<close>

fun findIndex :: "('a \<Rightarrow> bool) \<Rightarrow> 'a list \<Rightarrow> int" where
  "findIndex p [] = - 1"
| "findIndex p (x # xs) =
     (if p x then 0 else (let r = findIndex p xs in if r = - 1 then - 1 else r + 1))"

text \<open>
  The first statements of \<^verbatim>\<open>handlePlayerTileClick\<close> after its two guards: the id is
  pushed on \<^verbatim>\<open>#playerInput\<close> and the tile of that id is marked as selected.
\<close>

definition recordClick :: "int \<Rightarrow> GameService \<Rightarrow> GameService" where
  "recordClick tileId s =
     (let s1 = s\<lparr>playerInput := playerInput s @ [tileId]\<rparr>
      in s1\<lparr>tiles := map (\<lambda>t. if id_tile t = tileId then t\<lparr>selectedByPlayer := True\<rparr> else t)
                        (tiles s1)\<rparr>)"

text \<open>
  The scoring block of \<^verbatim>\<open>handlePlayerTileClick\<close>, run on the state that already holds
  the click. Reading \<^verbatim>\<open>#sequence[currentIndex]\<close> outside the array gives
  \<^verbatim>\<open>undefined\<close>, which is not \<^verbatim>\<open>===\<close> to any number.
\<close>

definition scoreClick :: "int \<Rightarrow> GameService \<Rightarrow> GameService" where
  "scoreClick tileId s =
     (let currentIndex = int (length (playerInput s)) - 1;
          isInSequence = (0 \<le> currentIndex \<and> currentIndex < int (length (sequence s)) \<and>
                          sequence s ! nat currentIndex = tileId);
          isCorrectClick = (findIndex (\<lambda>i. i = tileId) (sequence s) \<noteq> - 1)
      in if isCorrectClick then
           (if isInCombo s \<and> isInSequence then s\<lparr>score := score s + 2\<rparr>
            else (s\<lparr>isInCombo := False\<rparr>)\<lparr>score := score s + 1\<rparr>)
         else s\<lparr>isInCombo := False\<rparr>)"

definition handlePlayerTileClick :: "(nat \<Rightarrow> nat) \<Rightarrow> int \<Rightarrow> GameService \<Rightarrow> GameService" where
  "handlePlayerTileClick rnd tileId s =
     (if gameState s \<noteq> Input then s
      else if tileId \<in> set (playerInput s) then s
      else
        (let s1 = recordClick tileId s;
             s2 = scoreClick tileId s1
         in if length (playerInput s2) = length (sequence s2) then checkRound rnd s2
            else s2))"

subsection \<open>Concrete runs\<close>

text \<open>The source of draws in which every \<^verbatim>\<open>Math.random()\<close> returns \<open>0\<close>.\<close>

definition alwaysFirst :: "nat \<Rightarrow> nat" where
  "alwaysFirst i = 0"

text \<open>A run of clicks, one call of \<^verbatim>\<open>handlePlayerTileClick\<close> each.\<close>

fun clicks :: "(nat \<Rightarrow> nat) \<Rightarrow> int list \<Rightarrow> GameService \<Rightarrow> GameService" where
  "clicks rnd [] s = s"
| "clicks rnd (tileId # tileIds) s = clicks rnd tileIds (handlePlayerTileClick rnd tileId s)"

text \<open>
  The service never leaves the phase \<^verbatim>\<open>"sequence"\<close> by itself: the component that
  shows the sequence sets the signal \<^verbatim>\<open>gameState\<close> to \<^verbatim>\<open>"input"\<close> when it is
  done. The states below are those of a game started on a fresh service, with the draws
  of \<open>alwaysFirst\<close>, at the moment the player may click: in the first round, after
  two clicks of it, and in the second round.
\<close>

definition firstRound :: GameService where
  "firstRound = (startGame alwaysFirst constructor)\<lparr>gameState := Input\<rparr>"

definition twoClicks :: GameService where
  "twoClicks = clicks alwaysFirst [0, 1] firstRound"

definition secondRound :: GameService where
  "secondRound = (clicks alwaysFirst [0, 1, 2] firstRound)\<lparr>gameState := Input\<rparr>"

text \<open>
  Two states of the first round on which the evaluation runs, the third click recorded
  and scored: the sequence \<open>[0, 1, 2]\<close> clicked in the order \<open>2, 0, 1\<close>, and the
  clicks \<open>0, 1, 5\<close>.
\<close>

definition outOfOrder :: GameService where
  "outOfOrder = scoreClick 1 (recordClick 1 (clicks alwaysFirst [2, 0] firstRound))"

definition wrongClick :: GameService where
  "wrongClick = scoreClick 5 (recordClick 5 twoClicks)"

text \<open>The state in which the second round has been won as well.\<close>

definition thirdRound :: GameService where
  "thirdRound = clicks alwaysFirst [0, 1, 2, 3] secondRound"

section \<open>Grid initialization\<close>

lemma initializeGrid_loop_eq:
  "initializeGrid_loop sz i acc = acc @ map newTile [i..sz * sz - 1]"
proof (induction sz i acc rule: initializeGrid_loop.induct)
  case (1 sz i newTiles)
  show ?case
  proof (cases "i < sz * sz")
    case True
    have "[i..sz * sz - 1] = i # [i + 1..sz * sz - 1]"
      using True by (simp add: upto_rec1)
    with True "1" show ?thesis
      by (simp add: initializeGrid_loop.simps [of sz i newTiles])
  next
    case False
    then show ?thesis
      by (simp add: initializeGrid_loop.simps [of sz i newTiles])
  qed
qed

lemma tiles_initializeGrid:
  "tiles (initializeGrid s) = map newTile [0..gridSize s * gridSize s - 1]"
  by (simp add: initializeGrid_def Let_def initializeGrid_loop_eq)

lemma length_tiles_initializeGrid:
  "int (length (tiles (initializeGrid s))) = gridSize s * gridSize s"
  by (simp add: tiles_initializeGrid)

lemma ids_initializeGrid:
  "map id_tile (tiles (initializeGrid s)) = [0..gridSize s * gridSize s - 1]"
proof -
  have "map (id_tile \<circ> newTile) xs = xs" for xs
    by (induction xs) (simp_all add: newTile_def)
  then show ?thesis
    by (simp add: tiles_initializeGrid)
qed

text \<open>
  Claim C7. For every grid size, \<open>initializeGrid\<close> leaves exactly \<open>gridSize\<^sup>2\<close> tiles whose
  ids are \<open>0, 1, \<dots>, gridSize\<^sup>2 - 1\<close> in this order (so they are pairwise distinct), every
  tile has its five flags false, and the player's input is empty.
\<close>

theorem initializeGrid_spec:
  "int (length (tiles (initializeGrid s))) = gridSize s * gridSize s \<and>
   map id_tile (tiles (initializeGrid s)) = [0..gridSize s * gridSize s - 1] \<and>
   distinct (map id_tile (tiles (initializeGrid s))) \<and>
   list_all (\<lambda>t. \<not> lit t \<and> \<not> selectedByPlayer t \<and> \<not> isCorrectAndClicked t \<and>
                  \<not> isCorrectAndNotClicked t \<and> \<not> isIncorrectAndClicked t)
            (tiles (initializeGrid s)) \<and>
   playerInput (initializeGrid s) = []"
proof -
  have flags: "list_all (\<lambda>t. \<not> lit t \<and> \<not> selectedByPlayer t \<and> \<not> isCorrectAndClicked t \<and>
                  \<not> isCorrectAndNotClicked t \<and> \<not> isIncorrectAndClicked t)
            (tiles (initializeGrid s))"
    by (simp add: tiles_initializeGrid list_all_iff newTile_def)
  have "playerInput (initializeGrid s) = []"
    by (simp add: initializeGrid_def Let_def)
  with flags show ?thesis
    by (simp add: length_tiles_initializeGrid ids_initializeGrid)
qed

section \<open>Sequence generation\<close>

lemma length_splice1: "k < length xs \<Longrightarrow> length (splice1 k xs) = length xs - 1"
  by (simp add: splice1_def)

lemma set_splice1: "set (splice1 k xs) \<subseteq> set xs"
  unfolding splice1_def using set_take_subset [of k xs] set_drop_subset [of "Suc k" xs]
  by auto

lemma distinct_splice1:
  assumes "distinct xs" "k < length xs"
  shows "distinct (splice1 k xs) \<and> xs ! k \<notin> set (splice1 k xs)"
proof -
  have xs: "xs = take k xs @ xs ! k # drop (Suc k) xs"
    using assms(2) by (rule id_take_nth_drop)
  have "distinct (take k xs @ xs ! k # drop (Suc k) xs)"
    using assms(1) xs by simp
  then show ?thesis
    by (auto simp: splice1_def)
qed

lemma length_generateSequence_loop:
  "length (generateSequence_loop rnd n i avail sq) =
     length sq + min (nat (n - int i)) (length avail)"
proof (induction rnd n i avail sq rule: generateSequence_loop.induct)
  case (1 rnd n i avail sq)
  show ?case
  proof (cases "int i < n \<and> avail \<noteq> []")
    case True
    then have k: "rnd i mod length avail < length avail" by simp
    from True have pos: "0 < length avail" by simp
    have arith: "Suc (min (nat (n - (1 + int i))) (length avail - Suc 0)) =
        min (nat (n - int i)) (length avail)"
      using True pos by linarith
    from True "1" [OF _ _ refl] k arith show ?thesis
      by (simp add: generateSequence_loop.simps [of rnd n i avail sq] Let_def length_splice1)
  next
    case False
    then show ?thesis
      by (auto simp add: generateSequence_loop.simps [of rnd n i avail sq])
  qed
qed

lemma set_generateSequence_loop:
  "set (generateSequence_loop rnd n i avail sq) \<subseteq> set sq \<union> set avail"
proof (induction rnd n i avail sq rule: generateSequence_loop.induct)
  case (1 rnd n i avail sq)
  show ?case
  proof (cases "int i < n \<and> avail \<noteq> []")
    case True
    then have k: "rnd i mod length avail < length avail" by simp
    then have "avail ! (rnd i mod length avail) \<in> set avail" by simp
    with True "1" [OF _ _ refl] set_splice1 [of "rnd i mod length avail" avail] show ?thesis
      by (auto simp add: generateSequence_loop.simps [of rnd n i avail sq] Let_def)
  next
    case False
    then show ?thesis
      by (auto simp add: generateSequence_loop.simps [of rnd n i avail sq])
  qed
qed

lemma distinct_generateSequence_loop:
  "distinct (sq @ avail) \<Longrightarrow> distinct (generateSequence_loop rnd n i avail sq)"
proof (induction rnd n i avail sq rule: generateSequence_loop.induct)
  case (1 rnd n i avail sq)
  show ?case
  proof (cases "int i < n \<and> avail \<noteq> []")
    case True
    let ?k = "rnd i mod length avail"
    from True have k: "?k < length avail" by simp
    then have mem: "avail ! ?k \<in> set avail" by simp
    from "1.prems" have da: "distinct avail" and dq: "distinct sq"
      and disj: "set sq \<inter> set avail = {}" by auto
    from distinct_splice1 [OF da k] have ds: "distinct (splice1 ?k avail)"
      and nm: "avail ! ?k \<notin> set (splice1 ?k avail)" by auto
    have "distinct ((sq @ [avail ! ?k]) @ splice1 ?k avail)"
      using dq ds nm mem disj set_splice1 [of ?k avail] by auto
    with True "1.IH" [OF _ _ refl] show ?thesis
      by (simp add: generateSequence_loop.simps [of rnd n i avail sq] Let_def)
  next
    case False
    with "1.prems" show ?thesis
      by (auto simp add: generateSequence_loop.simps [of rnd n i avail sq])
  qed
qed

lemma gridSize_constructor: "gridSize constructor = 3"
  by (simp add: constructor_def initializeGrid_def Let_def)

lemma tiles_constructor: "tiles constructor = map newTile [0..8]"
  by (simp add: constructor_def tiles_initializeGrid)

lemma ids_constructor: "map id_tile (tiles constructor) = [0..8]"
  using ids_initializeGrid [of "\<lparr>currentLevel = 1, score = 0, gameState = Idle, gridSize = 3,
       tiles = [], numTilesToLight = 3, sequence = [], playerInput = [],
       isInCombo = False\<rparr>"]
  by (simp add: constructor_def)

text \<open>
  Claim C6. On a grid of \<open>gridSize\<^sup>2\<close> tiles with pairwise distinct ids,
  \<open>generateSequence\<close> with \<open>numTilesToLight = n\<close> leaves a sequence of exactly
  \<open>min n gridSize\<^sup>2\<close> ids (none when \<open>n\<close> is negative), pairwise distinct, each the
  id of a tile of the grid, whatever the random draws are. In particular a request for
  more ids than there are tiles gives \<open>gridSize\<^sup>2\<close> ids.
\<close>

theorem generateSequence_spec:
  assumes "distinct (map id_tile (tiles s))"
    and "int (length (tiles s)) = gridSize s * gridSize s"
  shows "length (sequence (generateSequence rnd s)) =
           nat (min (numTilesToLight s) (gridSize s * gridSize s)) \<and>
         distinct (sequence (generateSequence rnd s)) \<and>
         set (sequence (generateSequence rnd s)) \<subseteq> id_tile ` set (tiles s) \<and>
         (gridSize s * gridSize s < numTilesToLight s \<longrightarrow>
            int (length (sequence (generateSequence rnd s))) = gridSize s * gridSize s)"
proof -
  let ?sq = "generateSequence_loop rnd (numTilesToLight s) 0 (map id_tile (tiles s)) []"
  have sq: "sequence (generateSequence rnd s) = ?sq"
    by (simp add: generateSequence_def Let_def)
  have "length ?sq = min (nat (numTilesToLight s)) (length (tiles s))"
    by (simp add: length_generateSequence_loop)
  also have "\<dots> = nat (min (numTilesToLight s) (gridSize s * gridSize s))"
    using assms(2) by linarith
  finally have len: "length ?sq = nat (min (numTilesToLight s) (gridSize s * gridSize s))" .
  have dist: "distinct ?sq"
    using assms(1) by (simp add: distinct_generateSequence_loop)
  have sub: "set ?sq \<subseteq> id_tile ` set (tiles s)"
    using set_generateSequence_loop [of rnd "numTilesToLight s" 0 "map id_tile (tiles s)" "[]"]
    by simp
  have "0 \<le> gridSize s * gridSize s"
    by simp
  with len have "gridSize s * gridSize s < numTilesToLight s \<longrightarrow>
      int (length ?sq) = gridSize s * gridSize s"
    by simp
  with len dist sub sq show ?thesis
    by simp
qed

text \<open>
  A request for twelve ids on the nine tiles of the initial grid gives nine ids.
\<close>

theorem generateSequence_spec_witness:
  "distinct (map id_tile (tiles (constructor\<lparr>numTilesToLight := 12\<rparr>))) \<and>
   int (length (tiles (constructor\<lparr>numTilesToLight := 12\<rparr>))) =
     gridSize (constructor\<lparr>numTilesToLight := 12\<rparr>) *
     gridSize (constructor\<lparr>numTilesToLight := 12\<rparr>) \<and>
   length (sequence (generateSequence alwaysFirst (constructor\<lparr>numTilesToLight := 12\<rparr>))) = 9 \<and>
   distinct (sequence (generateSequence alwaysFirst (constructor\<lparr>numTilesToLight := 12\<rparr>)))"
proof -
  let ?s = "constructor\<lparr>numTilesToLight := 12\<rparr>"
  have h1: "distinct (map id_tile (tiles ?s))"
    by (simp add: ids_constructor)
  have h2: "int (length (tiles ?s)) = gridSize ?s * gridSize ?s"
    by (simp add: tiles_constructor gridSize_constructor)
  from generateSequence_spec [OF h1 h2, of alwaysFirst] h1 h2 show ?thesis
    by (simp add: gridSize_constructor)
qed

section \<open>Scoring a click\<close>

lemma findIndex_ge: "- 1 \<le> findIndex p xs"
  by (induction xs) (auto simp: Let_def)

lemma findIndex_found: "findIndex p xs \<noteq> - 1 \<longleftrightarrow> (\<exists>x \<in> set xs. p x)"
proof (induction xs)
  case Nil
  then show ?case by simp
next
  case (Cons x xs)
  have "findIndex p xs + 1 \<noteq> - 1"
    using findIndex_ge [of p xs] by linarith
  with Cons show ?case
    by (auto simp: Let_def)
qed

lemma correctSelections_iff:
  "correctSelections s \<longleftrightarrow>
     set (playerInput s) = set (sequence s) \<and> length (playerInput s) = length (sequence s)"
  by (auto simp: correctSelections_def list_all_iff)

text \<open>The comparison with the halved capacity, in integers.\<close>

lemma exceeds_half_iff:
  "real_of_int n > real_of_int c / 2 \<longleftrightarrow> c < 2 * n"
proof -
  have "real_of_int n > real_of_int c / 2 \<longleftrightarrow> real_of_int c < real_of_int (2 * n)"
    by (simp add: field_simps)
  also have "\<dots> \<longleftrightarrow> c < 2 * n"
    by (simp only: of_int_less_iff)
  finally show ?thesis .
qed

subsection \<open>The click handler, block by block\<close>

lemma recordClick_fields [simp]:
  "playerInput (recordClick tileId s) = playerInput s @ [tileId]"
  "sequence (recordClick tileId s) = sequence s"
  "score (recordClick tileId s) = score s"
  "isInCombo (recordClick tileId s) = isInCombo s"
  "gameState (recordClick tileId s) = gameState s"
  "currentLevel (recordClick tileId s) = currentLevel s"
  "gridSize (recordClick tileId s) = gridSize s"
  "numTilesToLight (recordClick tileId s) = numTilesToLight s"
  "tiles (recordClick tileId s) =
     map (\<lambda>t. if id_tile t = tileId then t\<lparr>selectedByPlayer := True\<rparr> else t) (tiles s)"
  by (simp_all add: recordClick_def Let_def)

lemma scoreClick_fields [simp]:
  "playerInput (scoreClick tileId s) = playerInput s"
  "sequence (scoreClick tileId s) = sequence s"
  "gameState (scoreClick tileId s) = gameState s"
  "currentLevel (scoreClick tileId s) = currentLevel s"
  "gridSize (scoreClick tileId s) = gridSize s"
  "numTilesToLight (scoreClick tileId s) = numTilesToLight s"
  "tiles (scoreClick tileId s) = tiles s"
  by (simp_all add: scoreClick_def Let_def)

lemma scoreClick_score:
  "score (scoreClick tileId s) =
     (if tileId \<in> set (sequence s) then
        (if isInCombo s \<and> 0 \<le> int (length (playerInput s)) - 1 \<and>
            int (length (playerInput s)) - 1 < int (length (sequence s)) \<and>
            sequence s ! nat (int (length (playerInput s)) - 1) = tileId
         then score s + 2 else score s + 1)
      else score s)"
  by (simp add: scoreClick_def Let_def findIndex_found)

lemma scoreClick_isInCombo:
  "isInCombo (scoreClick tileId s) \<longleftrightarrow>
     tileId \<in> set (sequence s) \<and> isInCombo s \<and>
     0 \<le> int (length (playerInput s)) - 1 \<and>
     int (length (playerInput s)) - 1 < int (length (sequence s)) \<and>
     sequence s ! nat (int (length (playerInput s)) - 1) = tileId"
  by (simp add: scoreClick_def Let_def findIndex_found)

lemma handlePlayerTileClick_accepted:
  assumes "gameState s = Input" and "tileId \<notin> set (playerInput s)"
  shows "handlePlayerTileClick rnd tileId s =
     (if length (playerInput s) + 1 = length (sequence s)
      then checkRound rnd (scoreClick tileId (recordClick tileId s))
      else scoreClick tileId (recordClick tileId s))"
  using assms by (simp add: handlePlayerTileClick_def Let_def)

lemma nextRound_fields [simp]:
  "playerInput (nextRound rnd s) = []"
  "isInCombo (nextRound rnd s) = True"
  "gameState (nextRound rnd s) = Sequence"
  "score (nextRound rnd s) = score s"
  "currentLevel (nextRound rnd s) = currentLevel s"
  "gridSize (nextRound rnd s) = gridSize s"
  "numTilesToLight (nextRound rnd s) = numTilesToLight s"
  "tiles (nextRound rnd s) = map clearTile (tiles s)"
  "sequence (nextRound rnd s) =
     generateSequence_loop rnd (numTilesToLight s) 0 (map id_tile (tiles s)) []"
proof -
  have "id_tile \<circ> clearTile = id_tile"
    by (simp add: fun_eq_iff clearTile_def)
  then show "sequence (nextRound rnd s) =
     generateSequence_loop rnd (numTilesToLight s) 0 (map id_tile (tiles s)) []"
    by (simp add: nextRound_def generateSequence_def Let_def)
qed (simp_all add: nextRound_def generateSequence_def Let_def)

lemma initializeGrid_fields [simp]:
  "playerInput (initializeGrid s) = []"
  "isInCombo (initializeGrid s) = isInCombo s"
  "gameState (initializeGrid s) = gameState s"
  "score (initializeGrid s) = score s"
  "currentLevel (initializeGrid s) = currentLevel s"
  "gridSize (initializeGrid s) = gridSize s"
  "numTilesToLight (initializeGrid s) = numTilesToLight s"
  "sequence (initializeGrid s) = sequence s"
  by (simp_all add: initializeGrid_def Let_def)

lemma score_checkRound: "score (checkRound rnd s) = score s"
  by (simp add: checkRound_def Let_def)

lemma checkRound_fail:
  assumes "\<not> correctSelections s"
  shows "checkRound rnd s =
    s\<lparr>isInCombo := False,
      tiles := map (markTile (sequence s) (playerInput s)) (tiles s),
      gameState := Over\<rparr>"
proof -
  have "correctSelections (s\<lparr>gameState := Checking\<rparr>) = correctSelections s"
    by (simp add: correctSelections_def)
  with assms show ?thesis
    by (simp add: checkRound_def Let_def)
qed

lemma checkRound_success:
  assumes "correctSelections s"
  shows "checkRound rnd s =
    nextRound rnd (initializeGrid
      (s\<lparr>gameState := Checking, currentLevel := currentLevel s + 1,
         numTilesToLight := numTilesToLight s + 1,
         gridSize := (if real_of_int (numTilesToLight s + 1) >
                           real_of_int (gridSize s * gridSize s) / 2
                      then gridSize s + 1 else gridSize s)\<rparr>))"
proof -
  have "correctSelections (s\<lparr>gameState := Checking\<rparr>) = correctSelections s"
    by (simp add: correctSelections_def)
  with assms show ?thesis
    by (simp add: checkRound_def Let_def)
qed

text \<open>
  Claim C1. A click in phase \<open>Input\<close> on an id that is not yet in the player's input is
  recorded and then scored. Its position is the length of the input before the click
  (the length after it, minus one). If the combo flag is set and the sequence holds the
  clicked id at that position, the scoring block adds exactly 2 to the score and the flag
  stays set. Otherwise the block clears the flag and adds exactly 1 when the id occurs
  somewhere in the sequence and nothing when it does not. The score the handler returns
  is the score after the scoring block, and when the click does not complete the round
  the state the handler returns is the state after the scoring block. When the click
  completes the round, the evaluation that follows decides the flag anew: the handler
  returns it set exactly when the round is won.
\<close>

theorem click_scoring:
  assumes "gameState s = Input" and "tileId \<notin> set (playerInput s)"
  shows
    "(isInCombo s \<and> length (playerInput s) < length (sequence s) \<and>
        sequence s ! length (playerInput s) = tileId \<longrightarrow>
        score (scoreClick tileId (recordClick tileId s)) = score s + 2 \<and>
        isInCombo (scoreClick tileId (recordClick tileId s))) \<and>
     (\<not> (isInCombo s \<and> length (playerInput s) < length (sequence s) \<and>
        sequence s ! length (playerInput s) = tileId) \<longrightarrow>
        \<not> isInCombo (scoreClick tileId (recordClick tileId s)) \<and>
        score (scoreClick tileId (recordClick tileId s)) =
          score s + (if tileId \<in> set (sequence s) then 1 else 0)) \<and>
     score (handlePlayerTileClick rnd tileId s) =
       score (scoreClick tileId (recordClick tileId s)) \<and>
     (length (playerInput s) + 1 \<noteq> length (sequence s) \<longrightarrow>
        handlePlayerTileClick rnd tileId s = scoreClick tileId (recordClick tileId s)) \<and>
     (length (playerInput s) + 1 = length (sequence s) \<longrightarrow>
        (isInCombo (handlePlayerTileClick rnd tileId s) \<longleftrightarrow>
           set (playerInput s @ [tileId]) = set (sequence s)))"
proof -
  let ?s' = "scoreClick tileId (recordClick tileId s)"
  let ?inPos = "length (playerInput s) < length (sequence s) \<and>
        sequence s ! length (playerInput s) = tileId"
  have mem: "tileId \<in> set (sequence s)" if "?inPos"
    using that nth_mem [of "length (playerInput s)" "sequence s"] by auto
  have a: "isInCombo s \<and> ?inPos \<longrightarrow> score ?s' = score s + 2 \<and> isInCombo ?s'"
    using mem by (simp add: scoreClick_score scoreClick_isInCombo)
  have b: "\<not> (isInCombo s \<and> ?inPos) \<longrightarrow> \<not> isInCombo ?s' \<and>
      score ?s' = score s + (if tileId \<in> set (sequence s) then 1 else 0)"
    by (auto simp add: scoreClick_score scoreClick_isInCombo)
  have c: "score (handlePlayerTileClick rnd tileId s) = score ?s'"
    by (simp add: handlePlayerTileClick_accepted [OF assms] score_checkRound)
  have d: "length (playerInput s) + 1 \<noteq> length (sequence s) \<longrightarrow>
      handlePlayerTileClick rnd tileId s = ?s'"
    by (simp add: handlePlayerTileClick_accepted [OF assms])
  have e: "isInCombo (handlePlayerTileClick rnd tileId s) \<longleftrightarrow>
      set (playerInput s @ [tileId]) = set (sequence s)"
    if full: "length (playerInput s) + 1 = length (sequence s)"
  proof (cases "correctSelections ?s'")
    case True
    with full show ?thesis
      by (simp add: handlePlayerTileClick_accepted [OF assms] checkRound_success [OF True]
          correctSelections_iff [symmetric])
        (simp add: correctSelections_iff)
  next
    case False
    with full show ?thesis
      by (simp add: handlePlayerTileClick_accepted [OF assms] checkRound_fail [OF False])
        (simp add: correctSelections_iff)
  qed
  from a b c d e show ?thesis
    by blast
qed

text \<open>
  In the first round, with the sequence \<open>[0, 1, 2]\<close> and the combo flag set, the first
  click scores 2 on tile 0 and keeps the flag, scores 1 on tile 2 and clears the flag,
  and scores nothing on tile 7 and clears the flag.
\<close>

theorem click_scoring_witness:
  "gameState firstRound = Input \<and> 0 \<notin> set (playerInput firstRound) \<and>
   isInCombo firstRound \<and> length (playerInput firstRound) < length (sequence firstRound) \<and>
   sequence firstRound ! length (playerInput firstRound) = 0 \<and>
   score (scoreClick 0 (recordClick 0 firstRound)) = score firstRound + 2 \<and>
   isInCombo (scoreClick 0 (recordClick 0 firstRound)) \<and>
   handlePlayerTileClick alwaysFirst 0 firstRound = scoreClick 0 (recordClick 0 firstRound) \<and>
   \<not> (isInCombo firstRound \<and> length (playerInput firstRound) < length (sequence firstRound) \<and>
   sequence firstRound ! length (playerInput firstRound) = 2) \<and>
   2 \<in> set (sequence firstRound) \<and>
   score (scoreClick 2 (recordClick 2 firstRound)) = score firstRound + 1 \<and>
   \<not> isInCombo (scoreClick 2 (recordClick 2 firstRound)) \<and>
   \<not> (isInCombo firstRound \<and> length (playerInput firstRound) < length (sequence firstRound) \<and>
   sequence firstRound ! length (playerInput firstRound) = 7) \<and>
   7 \<notin> set (sequence firstRound) \<and>
   score (scoreClick 7 (recordClick 7 firstRound)) = score firstRound \<and>
   \<not> isInCombo (scoreClick 7 (recordClick 7 firstRound))"
proof -
  have h1: "gameState firstRound = Input"
    by code_simp
  have h2: "0 \<notin> set (playerInput firstRound)" "2 \<notin> set (playerInput firstRound)"
    "7 \<notin> set (playerInput firstRound)"
    by code_simp+
  have h3: "isInCombo firstRound \<and> length (playerInput firstRound) < length (sequence firstRound) \<and>
   sequence firstRound ! length (playerInput firstRound) = 0"
    by code_simp
  have h4: "length (playerInput firstRound) + 1 \<noteq> length (sequence firstRound)"
    by code_simp
  have h5: "\<not> (isInCombo firstRound \<and> length (playerInput firstRound) < length (sequence firstRound) \<and>
   sequence firstRound ! length (playerInput firstRound) = 2)" "2 \<in> set (sequence firstRound)"
    by code_simp+
  have h6: "\<not> (isInCombo firstRound \<and> length (playerInput firstRound) < length (sequence firstRound) \<and>
   sequence firstRound ! length (playerInput firstRound) = 7)" "7 \<notin> set (sequence firstRound)"
    by code_simp+
  from click_scoring [OF h1 h2(1), of alwaysFirst] h1 h2 h3 h4
  have a: "score (scoreClick 0 (recordClick 0 firstRound)) = score firstRound + 2 \<and>
   isInCombo (scoreClick 0 (recordClick 0 firstRound)) \<and>
   handlePlayerTileClick alwaysFirst 0 firstRound = scoreClick 0 (recordClick 0 firstRound)"
    by blast
  from click_scoring [OF h1 h2(2), of alwaysFirst] h5
  have b: "score (scoreClick 2 (recordClick 2 firstRound)) = score firstRound + 1 \<and>
   \<not> isInCombo (scoreClick 2 (recordClick 2 firstRound))"
    by simp
  from click_scoring [OF h1 h2(3), of alwaysFirst] h6
  have c: "score (scoreClick 7 (recordClick 7 firstRound)) = score firstRound \<and>
   \<not> isInCombo (scoreClick 7 (recordClick 7 firstRound))"
    by simp
  from a b c h1 h2 h3 h5 h6 show ?thesis
    by blast
qed

text \<open>
  Claim C8. A click in any phase other than \<open>Input\<close>, or on an id that is already in
  the player's input, returns the state it was given: score, input, phase, tiles and
  every other field are unchanged.
\<close>

theorem ignored_click:
  assumes "gameState s \<noteq> Input \<or> tileId \<in> set (playerInput s)"
  shows "handlePlayerTileClick rnd tileId s = s"
  using assms by (auto simp add: handlePlayerTileClick_def)

text \<open>
  A second click on tile 1 is ignored, and so is a click while the third round's
  sequence is shown.
\<close>

theorem ignored_click_witness:
  "1 \<in> set (playerInput twoClicks) \<and>
   handlePlayerTileClick alwaysFirst 1 twoClicks = twoClicks \<and>
   gameState thirdRound \<noteq> Input \<and>
   handlePlayerTileClick alwaysFirst 1 thirdRound = thirdRound"
proof -
  have h: "1 \<in> set (playerInput twoClicks)" and p: "gameState thirdRound \<noteq> Input"
    by code_simp+
  from ignored_click [of twoClicks 1 alwaysFirst] ignored_click [of thirdRound 1 alwaysFirst] h p
  show ?thesis
    by blast
qed

section \<open>Evaluating a round\<close>

lemma clearTile_fresh: "clearTile (newTile i) = newTile i"
  by (simp add: clearTile_def newTile_def)

lemma tiles_checkRound_success:
  assumes "correctSelections s"
  shows "tiles (checkRound rnd s) =
    map newTile [0..gridSize (checkRound rnd s) * gridSize (checkRound rnd s) - 1]"
  by (simp add: checkRound_success [OF assms] tiles_initializeGrid clearTile_fresh)

lemma sequence_checkRound_success:
  assumes "correctSelections s"
  shows "sequence (checkRound rnd s) =
    generateSequence_loop rnd (numTilesToLight (checkRound rnd s)) 0
      [0..gridSize (checkRound rnd s) * gridSize (checkRound rnd s) - 1] []"
  by (simp add: checkRound_success [OF assms] ids_initializeGrid)

text \<open>
  Claim C2. The evaluation of a round ends in phase \<open>Sequence\<close> exactly when the
  player's input and the sequence have the same elements and the same length, whatever
  their order. In that case the level and the number of tiles to light are one more than
  before, the grid size is one more than before exactly when the new number of tiles to
  light exceeds half the square of the old grid size and is unchanged exactly when it does
  not, the grid is the initial grid of the resulting size, and a new round has started:
  empty input, combo flag set, a sequence drawn for the new number over the new grid, and
  the score untouched.
\<close>

theorem checkRound_success_spec:
  "(gameState (checkRound rnd s) = Sequence \<longleftrightarrow>
      set (playerInput s) = set (sequence s) \<and> length (playerInput s) = length (sequence s)) \<and>
   (set (playerInput s) = set (sequence s) \<and> length (playerInput s) = length (sequence s) \<longrightarrow>
      currentLevel (checkRound rnd s) = currentLevel s + 1 \<and>
      numTilesToLight (checkRound rnd s) = numTilesToLight s + 1 \<and>
      (gridSize (checkRound rnd s) = gridSize s + 1 \<longleftrightarrow>
         real_of_int (numTilesToLight s + 1) > real_of_int (gridSize s * gridSize s) / 2) \<and>
      (gridSize (checkRound rnd s) = gridSize s \<longleftrightarrow>
         \<not> real_of_int (numTilesToLight s + 1) > real_of_int (gridSize s * gridSize s) / 2) \<and>
      tiles (checkRound rnd s) =
        map newTile [0..gridSize (checkRound rnd s) * gridSize (checkRound rnd s) - 1] \<and>
      playerInput (checkRound rnd s) = [] \<and>
      isInCombo (checkRound rnd s) \<and>
      score (checkRound rnd s) = score s \<and>
      sequence (checkRound rnd s) =
        generateSequence_loop rnd (numTilesToLight s + 1) 0
          [0..gridSize (checkRound rnd s) * gridSize (checkRound rnd s) - 1] [])"
proof (cases "correctSelections s")
  case True
  note ok = checkRound_success [OF True]
  have eq: "set (playerInput s) = set (sequence s) \<and> length (playerInput s) = length (sequence s)"
    using True by (simp add: correctSelections_iff)
  have ph: "gameState (checkRound rnd s) = Sequence"
    by (simp add: ok)
  have lv: "currentLevel (checkRound rnd s) = currentLevel s + 1"
    by (simp add: ok)
  have nt: "numTilesToLight (checkRound rnd s) = numTilesToLight s + 1"
    by (simp add: ok)
  have gs: "gridSize (checkRound rnd s) =
      (if real_of_int (numTilesToLight s + 1) > real_of_int (gridSize s * gridSize s) / 2
       then gridSize s + 1 else gridSize s)"
    by (simp add: ok)
  have g1: "gridSize (checkRound rnd s) = gridSize s + 1 \<longleftrightarrow>
         real_of_int (numTilesToLight s + 1) > real_of_int (gridSize s * gridSize s) / 2"
    unfolding gs by simp
  have g2: "gridSize (checkRound rnd s) = gridSize s \<longleftrightarrow>
         \<not> real_of_int (numTilesToLight s + 1) > real_of_int (gridSize s * gridSize s) / 2"
    unfolding gs by simp
  have pi: "playerInput (checkRound rnd s) = []"
    by (simp add: ok)
  have co: "isInCombo (checkRound rnd s)"
    by (simp add: ok)
  have sq: "sequence (checkRound rnd s) =
        generateSequence_loop rnd (numTilesToLight s + 1) 0
          [0..gridSize (checkRound rnd s) * gridSize (checkRound rnd s) - 1] []"
    using sequence_checkRound_success [OF True, of rnd] by (simp only: nt)
  from eq ph lv nt g1 g2 pi co sq tiles_checkRound_success [OF True, of rnd]
    score_checkRound [of rnd s]
  show ?thesis
    by blast
next
  case False
  have neq: "\<not> (set (playerInput s) = set (sequence s) \<and>
      length (playerInput s) = length (sequence s))"
    using False by (simp add: correctSelections_iff)
  have "gameState (checkRound rnd s) \<noteq> Sequence"
    by (simp add: checkRound_fail [OF False])
  with neq show ?thesis
    by blast
qed

text \<open>
  The first round clicked in the order \<open>2, 0, 1\<close> is won, and with four tiles to light
  the grid of nine tiles does not grow.
\<close>

theorem checkRound_success_spec_witness:
  "set (playerInput outOfOrder) = set (sequence outOfOrder) \<and>
   length (playerInput outOfOrder) = length (sequence outOfOrder) \<and>
   playerInput outOfOrder \<noteq> sequence outOfOrder \<and>
   gameState (checkRound alwaysFirst outOfOrder) = Sequence \<and>
   currentLevel (checkRound alwaysFirst outOfOrder) = currentLevel outOfOrder + 1 \<and>
   numTilesToLight (checkRound alwaysFirst outOfOrder) = numTilesToLight outOfOrder + 1 \<and>
   gridSize (checkRound alwaysFirst outOfOrder) = gridSize outOfOrder \<and>
   playerInput (checkRound alwaysFirst outOfOrder) = []"
proof -
  have h: "set (playerInput outOfOrder) = set (sequence outOfOrder) \<and>
      length (playerInput outOfOrder) = length (sequence outOfOrder)"
    by code_simp
  have o: "playerInput outOfOrder \<noteq> sequence outOfOrder"
    by code_simp
  have n: "numTilesToLight outOfOrder = 3" and g: "gridSize outOfOrder = 3"
    by code_simp+
  have half: "\<not> real_of_int (numTilesToLight outOfOrder + 1) >
      real_of_int (gridSize outOfOrder * gridSize outOfOrder) / 2"
    by (simp add: n g)
  from checkRound_success_spec [of alwaysFirst outOfOrder] h o half show ?thesis
    by blast
qed

lemma markTile_fields [simp]:
  "id_tile (markTile sq inp t) = id_tile t"
  "lit (markTile sq inp t) = lit t"
  "selectedByPlayer (markTile sq inp t) = selectedByPlayer t"
  "isCorrectAndClicked (markTile sq inp t) \<longleftrightarrow> id_tile t \<in> set sq \<and> id_tile t \<in> set inp"
  "isCorrectAndNotClicked (markTile sq inp t) \<longleftrightarrow> id_tile t \<in> set sq \<and> id_tile t \<notin> set inp"
  "isIncorrectAndClicked (markTile sq inp t) \<longleftrightarrow> id_tile t \<notin> set sq \<and> id_tile t \<in> set inp"
  by (simp_all add: markTile_def Let_def)

text \<open>
  Claim C3. When the player's input and the sequence differ as sets or in length, the
  evaluation clears the combo flag and ends in phase \<open>Over\<close>. The tiles keep their ids
  and order, and on every tile \<open>isCorrectAndClicked\<close> holds exactly when its id is in
  the sequence and in the input, \<open>isCorrectAndNotClicked\<close> exactly when it is in the
  sequence and not in the input, \<open>isIncorrectAndClicked\<close> exactly when it is in the
  input and not in the sequence; no two of the three hold together, and none holds exactly
  when the id is in neither list. Nothing else changes.
\<close>

theorem checkRound_failure_spec:
  assumes "\<not> (set (playerInput s) = set (sequence s) \<and>
              length (playerInput s) = length (sequence s))"
  shows "\<not> isInCombo (checkRound rnd s) \<and>
         gameState (checkRound rnd s) = Over \<and>
         map id_tile (tiles (checkRound rnd s)) = map id_tile (tiles s) \<and>
         (\<forall>t \<in> set (tiles (checkRound rnd s)).
            (isCorrectAndClicked t \<longleftrightarrow>
               id_tile t \<in> set (sequence s) \<and> id_tile t \<in> set (playerInput s)) \<and>
            (isCorrectAndNotClicked t \<longleftrightarrow>
               id_tile t \<in> set (sequence s) \<and> id_tile t \<notin> set (playerInput s)) \<and>
            (isIncorrectAndClicked t \<longleftrightarrow>
               id_tile t \<notin> set (sequence s) \<and> id_tile t \<in> set (playerInput s)) \<and>
            \<not> (isCorrectAndClicked t \<and> isCorrectAndNotClicked t) \<and>
            \<not> (isCorrectAndClicked t \<and> isIncorrectAndClicked t) \<and>
            \<not> (isCorrectAndNotClicked t \<and> isIncorrectAndClicked t) \<and>
            (\<not> isCorrectAndClicked t \<and> \<not> isCorrectAndNotClicked t \<and>
               \<not> isIncorrectAndClicked t \<longleftrightarrow>
               id_tile t \<notin> set (sequence s) \<and> id_tile t \<notin> set (playerInput s))) \<and>
         map lit (tiles (checkRound rnd s)) = map lit (tiles s) \<and>
         map selectedByPlayer (tiles (checkRound rnd s)) = map selectedByPlayer (tiles s) \<and>
         sequence (checkRound rnd s) = sequence s \<and>
         playerInput (checkRound rnd s) = playerInput s \<and>
         score (checkRound rnd s) = score s \<and>
         currentLevel (checkRound rnd s) = currentLevel s \<and>
         gridSize (checkRound rnd s) = gridSize s \<and>
         numTilesToLight (checkRound rnd s) = numTilesToLight s"
proof -
  have nc: "\<not> correctSelections s"
    using assms by (simp add: correctSelections_iff)
  note fail = checkRound_fail [OF nc]
  have ts: "tiles (checkRound rnd s) = map (markTile (sequence s) (playerInput s)) (tiles s)"
    by (simp add: fail)
  have flags: "\<forall>t \<in> set (tiles (checkRound rnd s)).
            (isCorrectAndClicked t \<longleftrightarrow>
               id_tile t \<in> set (sequence s) \<and> id_tile t \<in> set (playerInput s)) \<and>
            (isCorrectAndNotClicked t \<longleftrightarrow>
               id_tile t \<in> set (sequence s) \<and> id_tile t \<notin> set (playerInput s)) \<and>
            (isIncorrectAndClicked t \<longleftrightarrow>
               id_tile t \<notin> set (sequence s) \<and> id_tile t \<in> set (playerInput s)) \<and>
            \<not> (isCorrectAndClicked t \<and> isCorrectAndNotClicked t) \<and>
            \<not> (isCorrectAndClicked t \<and> isIncorrectAndClicked t) \<and>
            \<not> (isCorrectAndNotClicked t \<and> isIncorrectAndClicked t) \<and>
            (\<not> isCorrectAndClicked t \<and> \<not> isCorrectAndNotClicked t \<and>
               \<not> isIncorrectAndClicked t \<longleftrightarrow>
               id_tile t \<notin> set (sequence s) \<and> id_tile t \<notin> set (playerInput s))"
    unfolding ts by auto
  have ids: "map id_tile (tiles (checkRound rnd s)) = map id_tile (tiles s)"
    unfolding ts by simp
  have lits: "map lit (tiles (checkRound rnd s)) = map lit (tiles s)"
    unfolding ts by simp
  have sels: "map selectedByPlayer (tiles (checkRound rnd s)) = map selectedByPlayer (tiles s)"
    unfolding ts by simp
  have rest: "\<not> isInCombo (checkRound rnd s) \<and>
         gameState (checkRound rnd s) = Over \<and>
         sequence (checkRound rnd s) = sequence s \<and>
         playerInput (checkRound rnd s) = playerInput s \<and>
         score (checkRound rnd s) = score s \<and>
         currentLevel (checkRound rnd s) = currentLevel s \<and>
         gridSize (checkRound rnd s) = gridSize s \<and>
         numTilesToLight (checkRound rnd s) = numTilesToLight s"
    by (simp add: fail)
  from flags ids lits sels rest show ?thesis
    by blast
qed

text \<open>
  The clicks \<open>0, 1, 5\<close> on the sequence \<open>[0, 1, 2]\<close> lose the round: tiles 0 and 1
  are correct and clicked, tile 2 is correct and not clicked, tile 5 is incorrect and
  clicked.
\<close>

theorem checkRound_failure_spec_witness:
  "\<not> (set (playerInput wrongClick) = set (sequence wrongClick) \<and>
      length (playerInput wrongClick) = length (sequence wrongClick)) \<and>
   length (playerInput wrongClick) = length (sequence wrongClick) \<and>
   \<not> isInCombo (checkRound alwaysFirst wrongClick) \<and>
   gameState (checkRound alwaysFirst wrongClick) = Over \<and>
   map id_tile (tiles (checkRound alwaysFirst wrongClick)) = [0..8] \<and>
   map isCorrectAndClicked (tiles (checkRound alwaysFirst wrongClick)) =
     [True, True, False, False, False, False, False, False, False] \<and>
   map isCorrectAndNotClicked (tiles (checkRound alwaysFirst wrongClick)) =
     [False, False, True, False, False, False, False, False, False] \<and>
   map isIncorrectAndClicked (tiles (checkRound alwaysFirst wrongClick)) =
     [False, False, False, False, False, True, False, False, False]"
proof -
  have h: "\<not> (set (playerInput wrongClick) = set (sequence wrongClick) \<and>
      length (playerInput wrongClick) = length (sequence wrongClick))"
    by code_simp
  have l: "length (playerInput wrongClick) = length (sequence wrongClick)"
    by code_simp
  have ids: "map id_tile (tiles wrongClick) = [0..8]"
    by code_simp
  have f: "map isCorrectAndClicked (tiles (checkRound alwaysFirst wrongClick)) =
     [True, True, False, False, False, False, False, False, False] \<and>
   map isCorrectAndNotClicked (tiles (checkRound alwaysFirst wrongClick)) =
     [False, False, True, False, False, False, False, False, False] \<and>
   map isIncorrectAndClicked (tiles (checkRound alwaysFirst wrongClick)) =
     [False, False, False, False, False, True, False, False, False]"
    by code_simp
  from checkRound_failure_spec [OF h, of alwaysFirst] h l ids f show ?thesis
    by simp
qed

section \<open>The four outcomes of a click\<close>

lemma handlePlayerTileClick_cases [case_names ignored scored lost won]:
  assumes "gameState s \<noteq> Input \<or> tileId \<in> set (playerInput s) \<Longrightarrow>
      handlePlayerTileClick rnd tileId s = s \<Longrightarrow> P"
    and "gameState s = Input \<Longrightarrow> tileId \<notin> set (playerInput s) \<Longrightarrow>
      length (playerInput s) + 1 \<noteq> length (sequence s) \<Longrightarrow>
      handlePlayerTileClick rnd tileId s = scoreClick tileId (recordClick tileId s) \<Longrightarrow> P"
    and "gameState s = Input \<Longrightarrow> tileId \<notin> set (playerInput s) \<Longrightarrow>
      length (playerInput s) + 1 = length (sequence s) \<Longrightarrow>
      set (playerInput s @ [tileId]) \<noteq> set (sequence s) \<Longrightarrow>
      handlePlayerTileClick rnd tileId s =
        checkRound rnd (scoreClick tileId (recordClick tileId s)) \<Longrightarrow>
      \<not> correctSelections (scoreClick tileId (recordClick tileId s)) \<Longrightarrow> P"
    and "gameState s = Input \<Longrightarrow> tileId \<notin> set (playerInput s) \<Longrightarrow>
      length (playerInput s) + 1 = length (sequence s) \<Longrightarrow>
      set (playerInput s @ [tileId]) = set (sequence s) \<Longrightarrow>
      handlePlayerTileClick rnd tileId s =
        checkRound rnd (scoreClick tileId (recordClick tileId s)) \<Longrightarrow>
      correctSelections (scoreClick tileId (recordClick tileId s)) \<Longrightarrow> P"
  shows P
proof (cases "gameState s \<noteq> Input \<or> tileId \<in> set (playerInput s)")
  case True
  then have "handlePlayerTileClick rnd tileId s = s"
    by (auto simp add: handlePlayerTileClick_def)
  with True assms(1) show P
    by blast
next
  case False
  then have acc: "gameState s = Input" "tileId \<notin> set (playerInput s)"
    by simp_all
  note h = handlePlayerTileClick_accepted [OF acc, of rnd]
  show P
  proof (cases "length (playerInput s) + 1 = length (sequence s)")
    case False
    with h acc assms(2) show P
      by simp
  next
    case True
    with h have run: "handlePlayerTileClick rnd tileId s =
        checkRound rnd (scoreClick tileId (recordClick tileId s))"
      by simp
    have cs: "correctSelections (scoreClick tileId (recordClick tileId s)) \<longleftrightarrow>
        set (playerInput s @ [tileId]) = set (sequence s)"
      using True by (simp add: correctSelections_iff)
    show P
    proof (cases "set (playerInput s @ [tileId]) = set (sequence s)")
      case True
      with cs acc \<open>length (playerInput s) + 1 = length (sequence s)\<close> run assms(4) show P
        by blast
    next
      case False
      with cs acc \<open>length (playerInput s) + 1 = length (sequence s)\<close> run assms(3) show P
        by blast
    qed
  qed
qed

section \<open>The session fields\<close>

text \<open>
  Claim C5, as amended. A call of \<open>handlePlayerTileClick\<close> that does not win a round
  (the click is ignored, or it does not complete the round, or it completes a round that
  is lost) leaves \<open>currentLevel\<close>, \<open>gridSize\<close> and \<open>numTilesToLight\<close> unchanged.
  The score is another matter: every call leaves it between its old value and its old
  value plus 2, and it is the scoring block of an accepted click that raises it, round
  completed or not. \<open>startGame\<close> and \<open>resetGame\<close> set the four fields to
  \<open>1, 0, 3, 3\<close>.
\<close>

theorem session_fields_frame:
  "(\<not> (gameState s = Input \<and> tileId \<notin> set (playerInput s) \<and>
        length (playerInput s) + 1 = length (sequence s) \<and>
        set (playerInput s @ [tileId]) = set (sequence s)) \<longrightarrow>
      currentLevel (handlePlayerTileClick rnd tileId s) = currentLevel s \<and>
      gridSize (handlePlayerTileClick rnd tileId s) = gridSize s \<and>
      numTilesToLight (handlePlayerTileClick rnd tileId s) = numTilesToLight s) \<and>
   score s \<le> score (handlePlayerTileClick rnd tileId s) \<and>
   score (handlePlayerTileClick rnd tileId s) \<le> score s + 2 \<and>
   currentLevel (startGame rnd s) = 1 \<and> score (startGame rnd s) = 0 \<and>
   gridSize (startGame rnd s) = 3 \<and> numTilesToLight (startGame rnd s) = 3 \<and>
   currentLevel (resetGame s) = 1 \<and> score (resetGame s) = 0 \<and>
   gridSize (resetGame s) = 3 \<and> numTilesToLight (resetGame s) = 3"
proof -
  have sc: "score s \<le> score (scoreClick tileId (recordClick tileId s)) \<and>
      score (scoreClick tileId (recordClick tileId s)) \<le> score s + 2"
    by (simp add: scoreClick_score)
  have frame: "\<not> (gameState s = Input \<and> tileId \<notin> set (playerInput s) \<and>
        length (playerInput s) + 1 = length (sequence s) \<and>
        set (playerInput s @ [tileId]) = set (sequence s)) \<longrightarrow>
      currentLevel (handlePlayerTileClick rnd tileId s) = currentLevel s \<and>
      gridSize (handlePlayerTileClick rnd tileId s) = gridSize s \<and>
      numTilesToLight (handlePlayerTileClick rnd tileId s) = numTilesToLight s"
  proof (cases rule: handlePlayerTileClick_cases [of s tileId rnd])
    case ignored
    then show ?thesis by simp
  next
    case scored
    then show ?thesis by simp
  next
    case lost
    then show ?thesis by (simp add: checkRound_fail)
  next
    case won
    then show ?thesis by blast
  qed
  have score: "score s \<le> score (handlePlayerTileClick rnd tileId s) \<and>
      score (handlePlayerTileClick rnd tileId s) \<le> score s + 2"
  proof (cases rule: handlePlayerTileClick_cases [of s tileId rnd])
    case ignored
    then show ?thesis by simp
  next
    case scored
    with sc show ?thesis by simp
  next
    case lost
    with sc show ?thesis by (simp add: score_checkRound)
  next
    case won
    with sc show ?thesis by (simp add: score_checkRound)
  qed
  have start: "currentLevel (startGame rnd s) = 1 \<and> score (startGame rnd s) = 0 \<and>
      gridSize (startGame rnd s) = 3 \<and> numTilesToLight (startGame rnd s) = 3"
    by (simp add: startGame_def Let_def)
  have reset: "currentLevel (resetGame s) = 1 \<and> score (resetGame s) = 0 \<and>
      gridSize (resetGame s) = 3 \<and> numTilesToLight (resetGame s) = 3"
    by (simp add: resetGame_def)
  from frame score start reset show ?thesis
    by blast
qed

text \<open>
  The claim as it was stated fails on the first click of the first round: one id of
  three is in the input, the phase is still \<open>Input\<close>, and the score went from 0 to 2.
\<close>

theorem session_fields_counterexample:
  "gameState firstRound = Input \<and>
   gameState (handlePlayerTileClick alwaysFirst 0 firstRound) = Input \<and>
   length (playerInput (handlePlayerTileClick alwaysFirst 0 firstRound)) = 1 \<and>
   length (sequence (handlePlayerTileClick alwaysFirst 0 firstRound)) = 3 \<and>
   score firstRound = 0 \<and>
   score (handlePlayerTileClick alwaysFirst 0 firstRound) = 2"
  by code_simp

text \<open>The same click leaves the other three session fields as they were.\<close>

theorem session_fields_frame_witness:
  "gameState firstRound = Input \<and> 0 \<notin> set (playerInput firstRound) \<and>
   length (playerInput firstRound) + 1 \<noteq> length (sequence firstRound) \<and>
   currentLevel (handlePlayerTileClick alwaysFirst 0 firstRound) = currentLevel firstRound \<and>
   gridSize (handlePlayerTileClick alwaysFirst 0 firstRound) = gridSize firstRound \<and>
   numTilesToLight (handlePlayerTileClick alwaysFirst 0 firstRound) =
     numTilesToLight firstRound"
proof -
  have h: "gameState firstRound = Input \<and> 0 \<notin> set (playerInput firstRound) \<and>
      length (playerInput firstRound) + 1 \<noteq> length (sequence firstRound)"
    by code_simp
  from session_fields_frame [of firstRound 0 alwaysFirst] h show ?thesis
    by blast
qed

section \<open>Clicks on ids outside the grid\<close>

lemma recordClick_outside:
  assumes "tileId \<notin> id_tile ` set (tiles s)"
  shows "tiles (recordClick tileId s) = tiles s"
proof -
  have "map (\<lambda>t. if id_tile t = tileId then t\<lparr>selectedByPlayer := True\<rparr> else t) (tiles s) =
      tiles s"
    using assms by (intro map_idI) auto
  then show ?thesis
    by simp
qed

lemma ids_recordClick: "map id_tile (tiles (recordClick tileId s)) = map id_tile (tiles s)"
  by (simp add: o_def if_distrib [of id_tile])

lemma ids_nextRound: "map id_tile (tiles (nextRound rnd s)) = map id_tile (tiles s)"
  by (simp add: o_def clearTile_def)

lemma image_ids: "id_tile ` set ts = set (map id_tile ts)"
  by simp

text \<open>
  Every id of the sequence is the id of a tile: \<open>startGame\<close> establishes this, and
  \<open>handlePlayerTileClick\<close> keeps it.
\<close>

lemma sequence_in_grid_nextRound:
  "set (sequence (nextRound rnd s)) \<subseteq> id_tile ` set (tiles (nextRound rnd s))"
  unfolding image_ids ids_nextRound
  using set_generateSequence_loop [of rnd "numTilesToLight s" 0 "map id_tile (tiles s)" "[]"]
  by simp

lemma sequence_in_grid_startGame:
  "set (sequence (startGame rnd s)) \<subseteq> id_tile ` set (tiles (startGame rnd s))"
proof -
  let ?s2 = "initializeGrid (s\<lparr>currentLevel := 1, score := 0, isInCombo := False,
                 numTilesToLight := 3, gridSize := 3\<rparr>)"
  have "sequence (startGame rnd s) = sequence (nextRound rnd ?s2)"
    and "tiles (startGame rnd s) = tiles (nextRound rnd ?s2)"
    by (simp_all add: startGame_def Let_def del: nextRound_fields)
  with sequence_in_grid_nextRound [of rnd ?s2] show ?thesis
    by (simp only:)
qed

lemma sequence_in_grid_handlePlayerTileClick:
  assumes "set (sequence s) \<subseteq> id_tile ` set (tiles s)"
  shows "set (sequence (handlePlayerTileClick rnd tileId s)) \<subseteq>
    id_tile ` set (tiles (handlePlayerTileClick rnd tileId s))"
proof (cases rule: handlePlayerTileClick_cases [of s tileId rnd])
  case ignored
  with assms show ?thesis by simp
next
  case scored
  have "id_tile ` set (tiles (scoreClick tileId (recordClick tileId s))) =
      id_tile ` set (tiles s)"
    unfolding image_ids scoreClick_fields ids_recordClick ..
  with scored assms show ?thesis
    by (simp del: recordClick_fields(9))
next
  case lost
  have "map id_tile (tiles (checkRound rnd (scoreClick tileId (recordClick tileId s)))) =
      map id_tile (tiles (recordClick tileId s))"
    by (simp add: checkRound_fail [OF lost(6)] o_def del: recordClick_fields(9))
  then have "id_tile ` set (tiles (checkRound rnd (scoreClick tileId (recordClick tileId s)))) =
      id_tile ` set (tiles s)"
    unfolding image_ids ids_recordClick by simp
  with lost assms show ?thesis
    by (simp add: checkRound_fail del: recordClick_fields(9))
next
  case won
  then show ?thesis
    by (simp only: checkRound_success [OF won(6)] sequence_in_grid_nextRound)
qed

text \<open>
  Claim C9. In a state whose sequence holds ids of tiles only, a click in phase
  \<open>Input\<close> on an id that no tile has and that is not yet in the player's input is
  appended to the input, leaves the \<open>selectedByPlayer\<close> flag of every tile as it was,
  leaves the score as it was and clears the combo flag. It counts as a click of the
  round: when it is the click that brings the input to the length of the sequence, the
  round is evaluated and lost, and the phase is \<open>Over\<close>; otherwise the phase stays
  \<open>Input\<close> and the tiles are unchanged.
\<close>

theorem click_outside_grid:
  assumes "gameState s = Input"
    and "tileId \<notin> set (playerInput s)"
    and "tileId \<notin> id_tile ` set (tiles s)"
    and "set (sequence s) \<subseteq> id_tile ` set (tiles s)"
  shows "playerInput (handlePlayerTileClick rnd tileId s) = playerInput s @ [tileId] \<and>
         map selectedByPlayer (tiles (handlePlayerTileClick rnd tileId s)) =
           map selectedByPlayer (tiles s) \<and>
         score (handlePlayerTileClick rnd tileId s) = score s \<and>
         \<not> isInCombo (handlePlayerTileClick rnd tileId s) \<and>
         (length (playerInput s) + 1 = length (sequence s) \<longrightarrow>
            gameState (handlePlayerTileClick rnd tileId s) = Over) \<and>
         (length (playerInput s) + 1 \<noteq> length (sequence s) \<longrightarrow>
            gameState (handlePlayerTileClick rnd tileId s) = Input \<and>
            tiles (handlePlayerTileClick rnd tileId s) = tiles s)"
proof -
  let ?s2 = "scoreClick tileId (recordClick tileId s)"
  from assms(3,4) have out: "tileId \<notin> set (sequence s)"
    by blast
  have ts: "tiles (recordClick tileId s) = tiles s"
    by (rule recordClick_outside [OF assms(3)])
  have sc: "score ?s2 = score s"
    using out by (simp add: scoreClick_score)
  have co: "\<not> isInCombo ?s2"
    using out by (simp add: scoreClick_isInCombo)
  have pl: "playerInput ?s2 = playerInput s @ [tileId]"
    by simp
  have ne: "set (playerInput s @ [tileId]) \<noteq> set (sequence s)"
    using out by auto
  show ?thesis
  proof (cases rule: handlePlayerTileClick_cases [of s tileId rnd])
    case ignored
    with assms(1,2) show ?thesis by blast
  next
    case scored
    with sc co pl assms(1) show ?thesis
      by (simp del: recordClick_fields(9) add: ts)
  next
    case lost
    with sc co pl show ?thesis
      by (simp del: recordClick_fields(9) add: ts checkRound_fail)
  next
    case won
    with ne show ?thesis by blast
  qed
qed

text \<open>
  After the clicks \<open>0, 1\<close> of the first round, a click on the id \<open>-1\<close> completes the
  round and loses it.
\<close>

theorem click_outside_grid_witness:
  "gameState twoClicks = Input \<and> - 1 \<notin> set (playerInput twoClicks) \<and>
   - 1 \<notin> id_tile ` set (tiles twoClicks) \<and>
   set (sequence twoClicks) \<subseteq> id_tile ` set (tiles twoClicks) \<and>
   length (playerInput twoClicks) + 1 = length (sequence twoClicks) \<and>
   playerInput (handlePlayerTileClick alwaysFirst (- 1) twoClicks) = [0, 1, - 1] \<and>
   score (handlePlayerTileClick alwaysFirst (- 1) twoClicks) = score twoClicks \<and>
   \<not> isInCombo (handlePlayerTileClick alwaysFirst (- 1) twoClicks) \<and>
   gameState (handlePlayerTileClick alwaysFirst (- 1) twoClicks) = Over"
proof -
  have h1: "gameState twoClicks = Input"
    by code_simp
  have h2: "- 1 \<notin> set (playerInput twoClicks)"
    by code_simp
  have h3: "- 1 \<notin> id_tile ` set (tiles twoClicks)"
    by code_simp
  have h4: "set (sequence twoClicks) \<subseteq> id_tile ` set (tiles twoClicks)"
    by code_simp
  have l: "length (playerInput twoClicks) + 1 = length (sequence twoClicks)"
    by code_simp
  have p: "playerInput twoClicks = [0, 1]"
    by code_simp
  from click_outside_grid [OF h1 h2 h3 h4, of alwaysFirst] h1 h2 h3 h4 l p show ?thesis
    by simp
qed

section \<open>The flag lit\<close>

lemma lit_recordClick: "map lit (tiles (recordClick tileId s)) = map lit (tiles s)"
  by (simp add: o_def if_distrib [of lit])

lemma lit_fresh: "list_all (\<lambda>t. \<not> lit t) (map newTile xs)"
  by (simp add: list_all_iff newTile_def)

lemma lit_initializeGrid: "list_all (\<lambda>t. \<not> lit t) (tiles (initializeGrid s))"
  by (simp add: tiles_initializeGrid lit_fresh)

lemma lit_nextRound: "list_all (\<lambda>t. \<not> lit t) (tiles (nextRound rnd s))"
  by (simp add: list_all_iff clearTile_def)

lemma lit_startGame: "list_all (\<lambda>t. \<not> lit t) (tiles (startGame rnd s))"
proof -
  have "tiles (startGame rnd s) =
      tiles (nextRound rnd (initializeGrid (s\<lparr>currentLevel := 1, score := 0,
        isInCombo := False, numTilesToLight := 3, gridSize := 3\<rparr>)))"
    by (simp add: startGame_def Let_def del: nextRound_fields)
  then show ?thesis
    by (simp only: lit_nextRound)
qed

lemma all_unlit_map: "list_all (\<lambda>t. \<not> lit t) ts \<longleftrightarrow> list_all Not (map lit ts)"
  by (simp add: list_all_iff)

lemma lit_checkRound:
  assumes "list_all (\<lambda>t. \<not> lit t) (tiles s)"
  shows "list_all (\<lambda>t. \<not> lit t) (tiles (checkRound rnd s))"
proof (cases "correctSelections s")
  case True
  then show ?thesis
    by (simp only: checkRound_success [OF True] lit_nextRound)
next
  case False
  with assms show ?thesis
    by (simp add: checkRound_fail [OF False] list_all_iff)
qed

lemma lit_handlePlayerTileClick:
  assumes "list_all (\<lambda>t. \<not> lit t) (tiles s)"
  shows "list_all (\<lambda>t. \<not> lit t) (tiles (handlePlayerTileClick rnd tileId s))"
proof -
  have "map lit (tiles (scoreClick tileId (recordClick tileId s))) = map lit (tiles s)"
    by (simp only: scoreClick_fields lit_recordClick)
  with assms have rec:
    "list_all (\<lambda>t. \<not> lit t) (tiles (scoreClick tileId (recordClick tileId s)))"
    by (simp only: all_unlit_map)
  show ?thesis
  proof (cases rule: handlePlayerTileClick_cases [of s tileId rnd])
    case ignored
    with assms show ?thesis by simp
  next
    case scored
    with rec show ?thesis by (simp only:)
  next
    case lost
    with lit_checkRound [OF rec, of rnd] show ?thesis by (simp only:)
  next
    case won
    with lit_checkRound [OF rec, of rnd] show ?thesis by (simp only:)
  qed
qed

text \<open>
  Claim C10. No tile is lit in the state the constructor leaves, nor after
  \<open>initializeGrid\<close>, \<open>nextRound\<close> or \<open>startGame\<close>, whatever the state before. When
  no tile is lit, none is after \<open>resetGame\<close>, \<open>handlePlayerTileClick\<close> or the
  evaluation of a round. Recording and scoring a click, and the marks of a lost round,
  leave the flag \<open>lit\<close> of every tile as it was.
\<close>

theorem lit_never_set:
  "list_all (\<lambda>t. \<not> lit t) (tiles constructor) \<and>
   list_all (\<lambda>t. \<not> lit t) (tiles (initializeGrid s)) \<and>
   list_all (\<lambda>t. \<not> lit t) (tiles (nextRound rnd s)) \<and>
   list_all (\<lambda>t. \<not> lit t) (tiles (startGame rnd s)) \<and>
   (list_all (\<lambda>t. \<not> lit t) (tiles s) \<longrightarrow>
      list_all (\<lambda>t. \<not> lit t) (tiles (resetGame s)) \<and>
      list_all (\<lambda>t. \<not> lit t) (tiles (handlePlayerTileClick rnd tileId s)) \<and>
      list_all (\<lambda>t. \<not> lit t) (tiles (checkRound rnd s))) \<and>
   map lit (tiles (scoreClick tileId (recordClick tileId s))) = map lit (tiles s) \<and>
   (\<not> correctSelections s \<longrightarrow> map lit (tiles (checkRound rnd s)) = map lit (tiles s))"
proof -
  have c: "list_all (\<lambda>t. \<not> lit t) (tiles constructor)"
    unfolding constructor_def by (rule lit_initializeGrid)
  have r: "tiles (resetGame s) = tiles s"
    by (simp add: resetGame_def)
  have k: "map lit (tiles (scoreClick tileId (recordClick tileId s))) = map lit (tiles s)"
    by (simp only: scoreClick_fields lit_recordClick)
  have f: "\<not> correctSelections s \<longrightarrow> map lit (tiles (checkRound rnd s)) = map lit (tiles s)"
    by (simp add: checkRound_fail o_def)
  from c r k f lit_initializeGrid [of s] lit_nextRound [of rnd s] lit_startGame [of rnd s]
    lit_handlePlayerTileClick [of s rnd tileId] lit_checkRound [of s rnd]
  show ?thesis
    by simp
qed

text \<open>
  After two clicks of the first round no tile is lit, and none is after a third click,
  losing (tile 5) or winning (tile 2), or after a reset.
\<close>

theorem lit_never_set_witness:
  "list_all (\<lambda>t. \<not> lit t) (tiles twoClicks) \<and>
   list_all (\<lambda>t. \<not> lit t) (tiles (handlePlayerTileClick alwaysFirst 5 twoClicks)) \<and>
   list_all (\<lambda>t. \<not> lit t) (tiles (handlePlayerTileClick alwaysFirst 2 twoClicks)) \<and>
   list_all (\<lambda>t. \<not> lit t) (tiles (resetGame twoClicks))"
proof -
  have h: "list_all (\<lambda>t. \<not> lit t) (tiles twoClicks)"
    by code_simp
  from lit_never_set [of twoClicks alwaysFirst 5] lit_never_set [of twoClicks alwaysFirst 2] h
  show ?thesis
    by blast
qed

section \<open>The size of the grid\<close>

text \<open>
  \<open>startGame\<close> leaves as many tiles as the square of the grid size, and
  \<open>handlePlayerTileClick\<close> keeps it so.
\<close>

lemma grid_startGame:
  "int (length (tiles (startGame rnd s))) = gridSize (startGame rnd s) * gridSize (startGame rnd s)"
  by (simp add: startGame_def Let_def tiles_initializeGrid)

lemma grid_checkRound:
  assumes "int (length (tiles s)) = gridSize s * gridSize s"
  shows "int (length (tiles (checkRound rnd s))) =
    gridSize (checkRound rnd s) * gridSize (checkRound rnd s)"
proof (cases "correctSelections s")
  case True
  then show ?thesis
    by (simp add: tiles_checkRound_success)
next
  case False
  with assms show ?thesis
    by (simp add: checkRound_fail)
qed

lemma grid_handlePlayerTileClick:
  assumes "int (length (tiles s)) = gridSize s * gridSize s"
  shows "int (length (tiles (handlePlayerTileClick rnd tileId s))) =
    gridSize (handlePlayerTileClick rnd tileId s) * gridSize (handlePlayerTileClick rnd tileId s)"
proof -
  have rec: "int (length (tiles (scoreClick tileId (recordClick tileId s)))) =
      gridSize (scoreClick tileId (recordClick tileId s)) *
      gridSize (scoreClick tileId (recordClick tileId s))"
    using assms by simp
  show ?thesis
  proof (cases rule: handlePlayerTileClick_cases [of s tileId rnd])
    case ignored
    with assms show ?thesis by simp
  next
    case scored
    with rec show ?thesis by (simp only:)
  next
    case lost
    with grid_checkRound [OF rec, of rnd] show ?thesis by (simp only:)
  next
    case won
    with grid_checkRound [OF rec, of rnd] show ?thesis by (simp only:)
  qed
qed

text \<open>
  Claim C4. The number of tiles is to be the square of the grid size after every
  operation. \<open>resetGame\<close> does not keep it: it sets the grid size to 3 as
  \<open>startGame\<close> does, but unlike \<open>startGame\<close> it does not call \<open>initializeGrid\<close>.
  Once two rounds are won the grid is of size 4 with 16 tiles; a reset then leaves the
  grid size 3 with the same 16 tiles.
\<close>

theorem resetGame_keeps_grid:
  "gameState thirdRound = Sequence \<and>
   gridSize thirdRound = 4 \<and> length (tiles thirdRound) = 16 \<and>
   gridSize (resetGame thirdRound) = 3 \<and> length (tiles (resetGame thirdRound)) = 16 \<and>
   int (length (tiles (resetGame thirdRound))) \<noteq>
     gridSize (resetGame thirdRound) * gridSize (resetGame thirdRound)"
  by code_simp

end
